theory Spec2Isabelle
  imports Complex_Main
begin

section \<open>JavaScript numbers\<close>

text \<open>
  A JavaScript number is modelled as an exact rational or one of the three special
  values of IEEE arithmetic. Division by zero, the arithmetic of the infinities and the
  comparisons with NaN follow the language; rounding, overflow, underflow and the sign of
  zero are not modelled (the one zero behaves as +0).
\<close>

datatype jsnum = Num rat | PInf | NInf | NaN

fun jneg :: "jsnum \<Rightarrow> jsnum" where
  "jneg (Num a) = Num (- a)"
| "jneg PInf = NInf"
| "jneg NInf = PInf"
| "jneg NaN = NaN"

fun jadd :: "jsnum \<Rightarrow> jsnum \<Rightarrow> jsnum" where
  "jadd (Num a) (Num b) = Num (a + b)"
| "jadd NaN _ = NaN"
| "jadd _ NaN = NaN"
| "jadd PInf NInf = NaN"
| "jadd NInf PInf = NaN"
| "jadd PInf _ = PInf"
| "jadd NInf _ = NInf"
| "jadd _ PInf = PInf"
| "jadd _ NInf = NInf"

fun jmul :: "jsnum \<Rightarrow> jsnum \<Rightarrow> jsnum" where
  "jmul (Num a) (Num b) = Num (a * b)"
| "jmul NaN _ = NaN"
| "jmul _ NaN = NaN"
| "jmul PInf (Num b) = (if b = 0 then NaN else if 0 < b then PInf else NInf)"
| "jmul NInf (Num b) = (if b = 0 then NaN else if 0 < b then NInf else PInf)"
| "jmul (Num a) PInf = (if a = 0 then NaN else if 0 < a then PInf else NInf)"
| "jmul (Num a) NInf = (if a = 0 then NaN else if 0 < a then NInf else PInf)"
| "jmul PInf PInf = PInf"
| "jmul NInf NInf = PInf"
| "jmul PInf NInf = NInf"
| "jmul NInf PInf = NInf"

fun jdiv :: "jsnum \<Rightarrow> jsnum \<Rightarrow> jsnum" where
  "jdiv (Num a) (Num b) =
     (if b \<noteq> 0 then Num (a / b)
      else if 0 < a then PInf else if a < 0 then NInf else NaN)"
| "jdiv NaN _ = NaN"
| "jdiv _ NaN = NaN"
| "jdiv (Num a) PInf = Num 0"
| "jdiv (Num a) NInf = Num 0"
| "jdiv PInf (Num b) = (if 0 \<le> b then PInf else NInf)"
| "jdiv NInf (Num b) = (if 0 \<le> b then NInf else PInf)"
| "jdiv PInf PInf = NaN"
| "jdiv PInf NInf = NaN"
| "jdiv NInf PInf = NaN"
| "jdiv NInf NInf = NaN"

fun jabs :: "jsnum \<Rightarrow> jsnum" where
  "jabs (Num a) = Num \<bar>a\<bar>"
| "jabs PInf = PInf"
| "jabs NInf = PInf"
| "jabs NaN = NaN"

text \<open>The relational operators: every comparison with NaN is false.\<close>

fun jlt :: "jsnum \<Rightarrow> jsnum \<Rightarrow> bool" where
  "jlt (Num a) (Num b) = (a < b)"
| "jlt NaN _ = False"
| "jlt _ NaN = False"
| "jlt _ NInf = False"
| "jlt PInf _ = False"
| "jlt NInf _ = True"
| "jlt _ PInf = True"

text \<open>Strict equality \<open>===\<close> on numbers: NaN is not equal to itself.\<close>

fun jeq :: "jsnum \<Rightarrow> jsnum \<Rightarrow> bool" where
  "jeq NaN _ = False"
| "jeq _ NaN = False"
| "jeq a b = (a = b)"

instantiation jsnum :: "{plus, minus, uminus, times, inverse, abs, ord}"
begin

definition plus_jsnum :: "jsnum \<Rightarrow> jsnum \<Rightarrow> jsnum" where
  [simp]: "plus_jsnum a b = jadd a b"

definition uminus_jsnum :: "jsnum \<Rightarrow> jsnum" where
  [simp]: "uminus_jsnum a = jneg a"

definition minus_jsnum :: "jsnum \<Rightarrow> jsnum \<Rightarrow> jsnum" where
  [simp]: "minus_jsnum a b = jadd a (jneg b)"

definition times_jsnum :: "jsnum \<Rightarrow> jsnum \<Rightarrow> jsnum" where
  [simp]: "times_jsnum a b = jmul a b"

definition divide_jsnum :: "jsnum \<Rightarrow> jsnum \<Rightarrow> jsnum" where
  [simp]: "divide_jsnum a b = jdiv a b"

definition inverse_jsnum :: "jsnum \<Rightarrow> jsnum" where
  [simp]: "inverse_jsnum a = jdiv (Num 1) a"

definition abs_jsnum :: "jsnum \<Rightarrow> jsnum" where
  [simp]: "abs_jsnum a = jabs a"

definition less_jsnum :: "jsnum \<Rightarrow> jsnum \<Rightarrow> bool" where
  [simp]: "less_jsnum a b = jlt a b"

definition less_eq_jsnum :: "jsnum \<Rightarrow> jsnum \<Rightarrow> bool" where
  [simp]: "less_eq_jsnum a b = (jlt a b \<or> jeq a b)"

instance ..

end

text \<open>\<open>Math.min(a, b)\<close> and \<open>Math.max(a, b)\<close>: NaN if either argument is NaN.\<close>

fun mathMin2 :: "jsnum \<Rightarrow> jsnum \<Rightarrow> jsnum" where
  "mathMin2 NaN _ = NaN"
| "mathMin2 _ NaN = NaN"
| "mathMin2 a b = (if jlt b a then b else a)"

fun mathMax2 :: "jsnum \<Rightarrow> jsnum \<Rightarrow> jsnum" where
  "mathMax2 NaN _ = NaN"
| "mathMax2 _ NaN = NaN"
| "mathMax2 a b = (if jlt a b then b else a)"

text \<open>
  \<open>Math.max(...xs)\<close> and \<open>Math.min(...xs)\<close> over a spread array: \<open>-Infinity\<close> and
  \<open>Infinity\<close> on the empty array.
\<close>

definition mathMax :: "jsnum list \<Rightarrow> jsnum" where
  "mathMax xs = foldl mathMax2 NInf xs"

definition mathMin :: "jsnum list \<Rightarrow> jsnum" where
  "mathMin xs = foldl mathMin2 PInf xs"

text \<open>Truthiness of a number (\<open>x || y\<close>): zero and NaN are falsy.\<close>

definition truthy :: "jsnum \<Rightarrow> bool" where
  "truthy x = (x \<noteq> Num 0 \<and> x \<noteq> NaN)"

definition orElse :: "jsnum \<Rightarrow> jsnum \<Rightarrow> jsnum" where
  "orElse x y = (if truthy x then x else y)"

text \<open>\<open>xs.reduce((a, b) => a + b, 0)\<close>.\<close>

definition sumjs :: "jsnum list \<Rightarrow> jsnum" where
  "sumjs xs = foldl (+) (Num 0) xs"

text \<open>
  \<open>xs.slice(start, end)\<close> with the language's treatment of negative and out-of-range
  indices; \<open>sliceFrom\<close> is the one-argument form.
\<close>

definition relIndex :: "int \<Rightarrow> nat \<Rightarrow> nat" where
  "relIndex i n = (if i < 0 then nat (max (int n + i) 0) else min (nat i) n)"

definition slice :: "int \<Rightarrow> int \<Rightarrow> 'a list \<Rightarrow> 'a list" where
  "slice s e xs =
     (let k = relIndex s (length xs); f = relIndex e (length xs)
      in take (f - k) (drop k xs))"

definition sliceFrom :: "int \<Rightarrow> 'a list \<Rightarrow> 'a list" where
  "sliceFrom s xs = drop (relIndex s (length xs)) xs"

text \<open>
  \<open>xs[i]\<close> on an array of numbers: a read out of range gives \<open>undefined\<close>, which
  arithmetic turns into NaN.
\<close>

definition nthjs :: "jsnum list \<Rightarrow> nat \<Rightarrow> jsnum" where
  "nthjs xs i = (if i < length xs then xs ! i else NaN)"

section \<open>Candles, signals and the engine state\<close>

record candle =
  time :: int
  "open" :: jsnum
  high :: jsnum
  low :: jsnum
  close :: jsnum
  volume :: jsnum
  closed :: bool

text \<open>The \<open>k\<close> object of an upstream message (fields \<open>t\<close>, \<open>o\<close>, \<open>h\<close>, \<open>l\<close>, \<open>c\<close>,
  \<open>v\<close>, \<open>x\<close>), its price fields after \<open>parseFloat\<close>.\<close>

record kline =
  kt :: int
  ko :: jsnum
  kh :: jsnum
  kl :: jsnum
  kc :: jsnum
  kv :: jsnum
  kx :: bool

datatype action = BUY | SELL | HOLD

text \<open>
  A signal object. \<open>reason\<close> is the fixed wording of the rationale and \<open>figures\<close> the
  numbers that the source formats into the rationale and into the display fields.
\<close>

record signal =
  action :: action
  reason :: string
  figures :: "jsnum list"
  strength :: jsnum

datatype message =
    Price string jsnum jsnum jsnum jsnum int
  | Signal string string signal
  | Unsubscribed string

datatype error = TypeError

text \<open>
  The engine's per-symbol tables. A socket is a handle; \<open>closedSockets\<close> records the
  handles on which \<open>close()\<close> was called and \<open>sent\<close> the events given to
  \<open>broadcast\<close>, oldest first.
\<close>

record engine =
  binanceSockets :: "string \<rightharpoonup> nat"
  candles :: "string \<rightharpoonup> candle list"
  activeStrategies :: "string \<rightharpoonup> string list"
  lastSignals :: "string \<rightharpoonup> (string \<rightharpoonup> signal)"
  closedSockets :: "nat list"
  sent :: "message list"

definition broadcast :: "message \<Rightarrow> engine \<Rightarrow> engine" where
  "broadcast m st = st\<lparr>sent := sent st @ [m]\<rparr>"

text \<open>\<open>toUpperCase\<close> and \<open>toLowerCase\<close> on ASCII letters.\<close>

definition upperChar :: "char \<Rightarrow> char" where
  "upperChar ch =
     (let n = (of_char ch :: nat) in if 97 \<le> n \<and> n \<le> 122 then char_of (n - 32) else ch)"


definition toUpperCase :: "string \<Rightarrow> string" where
  "toUpperCase s = map upperChar s"



section \<open>Candle aggregation\<close>

definition mkCandle :: "kline \<Rightarrow> candle" where
  "mkCandle k =
     \<lparr>time = kt k, open = ko k, high = kh k, low = kl k, close = kc k,
      volume = kv k, closed = kx k\<rparr>"

text \<open>The update-or-append step of \<open>_processKline\<close> on the symbol's buffer.\<close>

definition updateCandles :: "candle list \<Rightarrow> candle \<Rightarrow> candle list" where
  "updateCandles cs cd =
     (if length cs > 0 \<and> time (cs ! (length cs - 1)) = time cd
        then cs[length cs - 1 := cd]
      else if closed cd \<or> length cs = 0
        then (let pushed = cs @ [cd]
              in if length pushed > 500 then tl pushed else pushed)
      else cs)"

section \<open>Indicator calculations\<close>

text \<open>\<open>_sma\<close>; both call sites pass a period of at least 1.\<close>

definition sma :: "jsnum list \<Rightarrow> nat \<Rightarrow> jsnum list" where
  "sma values period =
     (if length values < period then []
      else map (\<lambda>i. sumjs (slice (int i - int period + 1) (int i + 1) values)
                        / Num (of_nat period))
               [period - 1 ..< length values])"

definition rsi :: "jsnum list \<Rightarrow> nat \<Rightarrow> jsnum option" where
  "rsi values period =
     (if length values < period + 1 then None
      else
        let p = Num (of_nat period);
            (gains, losses) =
               foldl (\<lambda>(g, ls) i.
                        let diff = nthjs values i - nthjs values (i - 1)
                        in if Num 0 \<le> diff then (g + diff, ls) else (g, ls - diff))
                     (Num 0, Num 0) [1 ..< period + 1];
            (avgGain, avgLoss) =
               foldl (\<lambda>(ag, al) i.
                        let diff = nthjs values i - nthjs values (i - 1)
                        in ((ag * (p - Num 1) + (if Num 0 \<le> diff then diff else Num 0)) / p,
                            (al * (p - Num 1) + (if diff < Num 0 then - diff else Num 0)) / p))
                     (gains / p, losses / p) [period + 1 ..< length values]
        in if jeq avgLoss (Num 0) then Some (Num 100)
           else let rs = avgGain / avgLoss
                in Some (Num 100 - Num 100 / (Num 1 + rs)))"

definition vwapSums :: "candle list \<Rightarrow> jsnum \<times> jsnum" where
  "vwapSums cs =
     foldl (\<lambda>(cumPV, cumVol) cd.
              let typicalPrice = (high cd + low cd + close cd) / Num 3
              in (cumPV + typicalPrice * volume cd, cumVol + volume cd))
           (Num 0, Num 0) cs"

text \<open>
  \<open>_vwap\<close>. The fallback reads the last candle; on an empty array the source throws on
  \<open>undefined.close\<close>.
\<close>

definition vwap :: "candle list \<Rightarrow> error + jsnum" where
  "vwap cs =
     (let (cumPV, cumVol) = vwapSums cs
      in if Num 0 < cumVol then Inr (cumPV / cumVol)
         else if cs = [] then Inl TypeError
         else Inr (close (cs ! (length cs - 1))))"

definition linearRegSlope :: "jsnum list \<Rightarrow> jsnum" where
  "linearRegSlope values =
     (let n = Num (of_nat (length values));
          (sumX, sumY, sumXY, sumX2) =
             foldl (\<lambda>(sx, sy, sxy, sx2) i.
                      let xi = Num (of_nat i)
                      in (sx + xi, sy + nthjs values i, sxy + xi * nthjs values i,
                          sx2 + xi * xi))
                   (Num 0, Num 0, Num 0, Num 0) [0 ..< length values]
      in (n * sumXY - sumX * sumY) / (n * sumX2 - sumX * sumX))"

definition rSquared :: "jsnum list \<Rightarrow> jsnum" where
  "rSquared values =
     (let n = Num (of_nat (length values));
          slope = linearRegSlope values;
          meanY = sumjs values / n;
          intercept = meanY - slope * (n - Num 1) / Num 2;
          (ssRes, ssTot) =
             foldl (\<lambda>(res, tot) i.
                      let predicted = intercept + slope * Num (of_nat i);
                          dr = nthjs values i - predicted;
                          dt = nthjs values i - meanY
                      in (res + dr * dr, tot + dt * dt))
                   (Num 0, Num 0) [0 ..< length values]
      in if Num 0 < ssTot then Num 1 - ssRes / ssTot else Num 0)"

section \<open>Strategy evaluators\<close>

text \<open>
  Each evaluator returns \<open>None\<close> where the source returns \<open>null\<close>. The rationale
  strings are given in ASCII.
\<close>

definition smaCrossover :: "candle list \<Rightarrow> signal option" where
  "smaCrossover cs =
     (let closes = map close cs;
          sma10 = sma closes 10;
          sma30 = sma closes 30
      in if length sma10 < 2 \<or> length sma30 < 2 then None
         else
           let curr10 = nthjs sma10 (length sma10 - 1);
               prev10 = nthjs sma10 (length sma10 - 2);
               curr30 = nthjs sma30 (length sma30 - 1);
               prev30 = nthjs sma30 (length sma30 - 2)
           in if prev10 \<le> prev30 \<and> curr10 > curr30 then
                Some \<lparr>action = BUY,
                      reason = ''SMA(10) crossed above SMA(30) - bullish crossover'',
                      figures = [curr10, curr30],
                      strength = mathMin2 ((curr10 - curr30) / curr30 * Num 1000) (Num 100)\<rparr>
              else if prev10 \<ge> prev30 \<and> curr10 < curr30 then
                Some \<lparr>action = SELL,
                      reason = ''SMA(10) crossed below SMA(30) - bearish crossover'',
                      figures = [curr10, curr30],
                      strength = mathMin2 ((curr30 - curr10) / curr10 * Num 1000) (Num 100)\<rparr>
              else if curr10 > curr30 * Num 1.002 then
                Some \<lparr>action = BUY, reason = ''SMA(10) above SMA(30) - bullish trend'',
                      figures = [curr10, curr30], strength = Num 40\<rparr>
              else if curr10 < curr30 * Num 0.998 then
                Some \<lparr>action = SELL, reason = ''SMA(10) below SMA(30) - bearish trend'',
                      figures = [curr10, curr30], strength = Num 40\<rparr>
              else
                Some \<lparr>action = HOLD, reason = ''SMA(10) ~ SMA(30) - no clear trend'',
                      figures = [curr10, curr30], strength = Num 10\<rparr>)"

definition rsiStrategy :: "candle list \<Rightarrow> signal option" where
  "rsiStrategy cs =
     (case rsi (map close cs) 14 of
        None \<Rightarrow> None
      | Some r \<Rightarrow>
          if r \<le> Num 25 then
            Some \<lparr>action = BUY, reason = ''RSI(14) - deeply oversold, strong buy signal'',
                  figures = [r], strength = Num 90\<rparr>
          else if r \<le> Num 30 then
            Some \<lparr>action = BUY, reason = ''RSI(14) - oversold territory'',
                  figures = [r], strength = Num 70\<rparr>
          else if r \<ge> Num 75 then
            Some \<lparr>action = SELL, reason = ''RSI(14) - deeply overbought, strong sell signal'',
                  figures = [r], strength = Num 90\<rparr>
          else if r \<ge> Num 70 then
            Some \<lparr>action = SELL, reason = ''RSI(14) - overbought territory'',
                  figures = [r], strength = Num 70\<rparr>
          else
            Some \<lparr>action = HOLD, reason = ''RSI(14) - neutral zone'',
                  figures = [r], strength = Num 10\<rparr>)"

text \<open>
  \<open>_breakoutStrategy\<close>. \<open>current\<close> is read after the length guard, so the index is in
  range.
\<close>

definition breakoutStrategy :: "candle list \<Rightarrow> signal option" where
  "breakoutStrategy cs =
     (if length cs < 21 then None
      else
        let recent = slice (- 21) (- 1) cs;
            current = cs ! (length cs - 1);
            high20 = mathMax (map high recent);
            low20 = mathMin (map low recent);
            rng = high20 - low20
        in if close current > high20 then
             Some \<lparr>action = BUY,
                   reason = ''Price broke above 20-period high - breakout buy'',
                   figures = [high20],
                   strength = mathMin2 ((close current - high20) / rng * Num 200) (Num 100)\<rparr>
           else if close current < low20 then
             Some \<lparr>action = SELL,
                   reason = ''Price broke below 20-period low - breakdown sell'',
                   figures = [low20],
                   strength = mathMin2 ((low20 - close current) / rng * Num 200) (Num 100)\<rparr>
           else
             Some \<lparr>action = HOLD, reason = ''Price within range'',
                   figures = [low20, high20], strength = Num 10\<rparr>)"

text \<open>The intermediate quantities of \<open>_hftMomentum\<close>, each over the last 30 candles.\<close>

definition tickMomentum :: "candle list \<Rightarrow> jsnum" where
  "tickMomentum recent =
     (let last10 = sliceFrom (- 10) recent
      in foldl (\<lambda>m i. m + (close (last10 ! i) - close (last10 ! (i - 1))))
               (Num 0) [1 ..< length last10])"

definition microPrice :: "candle \<Rightarrow> jsnum" where
  "microPrice current = (high current + low current + close current * Num 2) / Num 4"

definition avgVol :: "candle list \<Rightarrow> jsnum" where
  "avgVol recent =
     foldl (\<lambda>s cd. s + volume cd) (Num 0) (slice 0 (- 1) recent)
       / Num (of_int (int (length recent) - 1))"

definition hftMomentum :: "candle list \<Rightarrow> error + signal option" where
  "hftMomentum cs =
     (if length cs < 30 then Inr None
      else
        let recent = sliceFrom (- 30) cs;
            current = recent ! (length recent - 1)
        in case vwap recent of
             Inl e \<Rightarrow> Inl e
           | Inr vw \<Rightarrow>
               let vwapDev = (close current - vw) / vw * Num 100;
                   tickDir = (if tickMomentum recent > Num 0 then Num 1 else Num (- 1));
                   microDev = (close current - microPrice current) / microPrice current
                                * Num 10000;
                   volRatio = volume current / orElse (avgVol recent) (Num 1)
               in if vwapDev < Num (- 0.15) \<and> tickDir > Num 0 \<and> volRatio > Num 1.3 then
                    Inr (Some \<lparr>action = BUY,
                      reason = ''HFT: Price below VWAP with positive tick momentum, volume surge'',
                      figures = [vwapDev, volRatio, vw],
                      strength = mathMin2 (\<bar>vwapDev\<bar> * Num 200 + volRatio * Num 10) (Num 100)\<rparr>)
                  else if vwapDev > Num 0.15 \<and> tickDir < Num 0 \<and> volRatio > Num 1.3 then
                    Inr (Some \<lparr>action = SELL,
                      reason = ''HFT: Price above VWAP with negative tick momentum, volume surge'',
                      figures = [vwapDev, volRatio, vw],
                      strength = mathMin2 (\<bar>vwapDev\<bar> * Num 200 + volRatio * Num 10) (Num 100)\<rparr>)
                  else
                    Inr (Some \<lparr>action = HOLD, reason = ''HFT: no signal'',
                      figures = [vwapDev, tickDir, volRatio, vw], strength = Num 10\<rparr>))"


definition linearRegression :: "candle list \<Rightarrow> signal option" where
  "linearRegression cs =
     (if length cs < 50 then None
      else
        let closes = map close (sliceFrom (- 50) cs);
            shortSlope = linearRegSlope (sliceFrom (- 20) closes);
            longSlope = linearRegSlope closes;
            avgPrice = sumjs closes / Num (of_nat (length closes));
            shortSlopeNorm = shortSlope / avgPrice * Num 100;
            longSlopeNorm = longSlope / avgPrice * Num 100;
            r2 = rSquared (sliceFrom (- 20) closes)
        in if shortSlopeNorm > Num 0.05 \<and> longSlopeNorm > Num 0 \<and> r2 > Num 0.6 then
             Some \<lparr>action = BUY, reason = ''LR: strong uptrend'',
                   figures = [shortSlopeNorm, longSlopeNorm, r2],
                   strength = mathMin2 (r2 * Num 100) (Num 100)\<rparr>
           else if shortSlopeNorm < Num (- 0.05) \<and> longSlopeNorm < Num 0 \<and> r2 > Num 0.6 then
             Some \<lparr>action = SELL, reason = ''LR: strong downtrend'',
                   figures = [shortSlopeNorm, longSlopeNorm, r2],
                   strength = mathMin2 (r2 * Num 100) (Num 100)\<rparr>
           else if shortSlopeNorm > Num 0.1 \<and> longSlopeNorm < Num (- 0.02) then
             Some \<lparr>action = SELL,
                   reason = ''LR Mean Reversion: short-term bounce in long-term downtrend - sell the rally'',
                   figures = [shortSlopeNorm],
                   strength = mathMin2 (\<bar>shortSlopeNorm\<bar> * Num 300) (Num 80)\<rparr>
           else if shortSlopeNorm < Num (- 0.1) \<and> longSlopeNorm > Num 0.02 then
             Some \<lparr>action = BUY,
                   reason = ''LR Mean Reversion: short-term dip in long-term uptrend - buy the dip'',
                   figures = [shortSlopeNorm],
                   strength = mathMin2 (\<bar>shortSlopeNorm\<bar> * Num 300) (Num 80)\<rparr>
           else
             Some \<lparr>action = HOLD, reason = ''LR: no clear signal'',
                   figures = [shortSlopeNorm, longSlopeNorm, r2], strength = Num 10\<rparr>)"

definition runStrategy :: "string \<Rightarrow> string \<Rightarrow> candle list \<Rightarrow> error + signal option" where
  "runStrategy name symb cs =
     (if name = ''sma_crossover'' then Inr (smaCrossover cs)
      else if name = ''rsi'' then Inr (rsiStrategy cs)
      else if name = ''breakout'' then Inr (breakoutStrategy cs)
      else if name = ''hft_momentum'' then hftMomentum cs
      else if name = ''linear_regression'' then Inr (linearRegression cs)
      else Inr None)"

section \<open>Signal de-duplication and tick processing\<close>

definition isNewSignal :: "engine \<Rightarrow> string \<Rightarrow> string \<Rightarrow> signal \<Rightarrow> bool" where
  "isNewSignal st symb strat sig =
     (case lastSignals st symb of
        None \<Rightarrow> True
      | Some m \<Rightarrow>
          (case m strat of
             None \<Rightarrow> True
           | Some lst \<Rightarrow> action lst \<noteq> action sig))"

text \<open>
  A call that throws leaves the engine as it was at the throw: \<open>Inl\<close> carries the error
  and that state.
\<close>

type_synonym result = "(error \<times> engine) + engine"

definition final :: "result \<Rightarrow> engine" where
  "final r = (case r of Inl (e, st) \<Rightarrow> st | Inr st \<Rightarrow> st)"

text \<open>
  The body of the strategy loop of \<open>_processKline\<close> for one evaluator output. The
  assignment \<open>this.lastSignals[sym][strat] = signal\<close> throws when the symbol has no
  last-signal table. The \<open>time\<close> field of the event (\<open>Date.now()\<close>) is left out.
\<close>

definition emitIfNew :: "string \<Rightarrow> string \<Rightarrow> signal option \<Rightarrow> engine \<Rightarrow> result" where
  "emitIfNew symb strat sigopt st =
     (case sigopt of
        None \<Rightarrow> Inr st
      | Some sig \<Rightarrow>
          if isNewSignal st symb strat sig then
            (case lastSignals st symb of
               None \<Rightarrow> Inl (TypeError, st)
             | Some m \<Rightarrow>
                 Inr (broadcast (Signal (toUpperCase symb) strat sig)
                       (st\<lparr>lastSignals := (lastSignals st)(symb \<mapsto> m(strat \<mapsto> sig))\<rparr>)))
          else Inr st)"

fun runStrategies :: "string \<Rightarrow> candle list \<Rightarrow> string list \<Rightarrow> engine \<Rightarrow> result" where
  "runStrategies symb cs [] st = Inr st"
| "runStrategies symb cs (strat # rest) st =
     (case runStrategy strat symb cs of
        Inl e \<Rightarrow> Inl (e, st)
      | Inr sigopt \<Rightarrow>
          (case emitIfNew symb strat sigopt st of
             Inl err \<Rightarrow> Inl err
           | Inr st' \<Rightarrow> runStrategies symb cs rest st'))"

text \<open>
  \<open>_processKline\<close>. \<open>None\<close> is a missing \<open>k\<close>; reading \<open>candles.length\<close> throws when the
  symbol has no buffer.
\<close>

definition processKline :: "string \<Rightarrow> kline option \<Rightarrow> engine \<Rightarrow> result" where
  "processKline symb kopt st =
     (case kopt of
        None \<Rightarrow> Inr st
      | Some k \<Rightarrow>
          (let cd = mkCandle k
           in (case candles st symb of
                 None \<Rightarrow> Inl (TypeError, st)
               | Some cs \<Rightarrow>
                   (let cs' = updateCandles cs cd;
                        st1 = st\<lparr>candles := (candles st)(symb \<mapsto> cs')\<rparr>;
                        st2 = broadcast (Price (toUpperCase symb) (close cd) (high cd) (low cd)
                                          (volume cd) (time cd)) st1
                    in if closed cd \<and> length cs' \<ge> 50 then
                         runStrategies symb cs'
                           (case activeStrategies st2 symb of None \<Rightarrow> [] | Some ss \<Rightarrow> ss) st2
                       else Inr st2))))"

text \<open>
  The upstream message handler calls \<open>_processKline\<close> inside \<open>try\<close>/\<open>catch\<close> and
  ignores what it throws; \<open>processTicks\<close> is the handler run over a sequence of ticks.
\<close>

definition processTicks :: "string \<Rightarrow> kline option list \<Rightarrow> engine \<Rightarrow> engine" where
  "processTicks symb ks st = foldl (\<lambda>s k. final (processKline symb k s)) st ks"

section \<open>Unsubscribe\<close>


section \<open>Observations and example inputs\<close>


text \<open>An engine subscribed to one symbol with an empty buffer, and a tick at a given time.\<close>

definition engine0 :: engine where
  "engine0 =
     \<lparr>binanceSockets = Map.empty, candles = [''btcusdt'' \<mapsto> []],
      activeStrategies = [''btcusdt'' \<mapsto> [''rsi'']],
      lastSignals = [''btcusdt'' \<mapsto> Map.empty], closedSockets = [], sent = []\<rparr>"

definition tick :: "int \<Rightarrow> bool \<Rightarrow> kline" where
  "tick tm cl = \<lparr>kt = tm, ko = Num 1, kh = Num 1, kl = Num 1, kc = Num 1, kv = Num 1, kx = cl\<rparr>"

text \<open>A full buffer of 500 candles, in an engine that runs no strategy.\<close>

definition fullBuffer :: "candle list" where
  "fullBuffer = replicate 500 (mkCandle (tick 1 True))"

definition engineFull :: engine where
  "engineFull = engine0\<lparr>candles := [''btcusdt'' \<mapsto> fullBuffer], activeStrategies := Map.empty\<rparr>"




text \<open>A candle with every price and the volume equal to 1.\<close>

definition flat :: candle where
  "flat = \<lparr>time = 0, open = Num 1, high = Num 1, low = Num 1, close = Num 1,
           volume = Num 1, closed = True\<rparr>"

text \<open>
  The \<open>p\<close>-bar simple moving average at bar \<open>i\<close> as the specification words it: the
  mean of the \<open>p\<close> values that end at bar \<open>i\<close>. \<open>sma_nth\<close> below relates the loop
  of \<open>_sma\<close> to it.
\<close>

definition smaAt :: "jsnum list \<Rightarrow> nat \<Rightarrow> nat \<Rightarrow> jsnum" where
  "smaAt vs p i = sumjs (take p (drop (i + 1 - p) vs)) / Num (of_nat p)"



text \<open>
  Twenty-one candles whose low (2) is above their high (1), closing at the high.
\<close>

definition inverted :: "candle list" where
  "inverted = replicate 21 (flat\<lparr>high := Num 1, low := Num 2, close := Num 1\<rparr>)"

text \<open>
  A finite, strictly positive number; a finite, non-negative number; and a candle with
  strictly positive prices and a non-negative volume.
\<close>

fun isPos :: "jsnum \<Rightarrow> bool" where
  "isPos (Num q) = (0 < q)"
| "isPos _ = False"

fun isNonneg :: "jsnum \<Rightarrow> bool" where
  "isNonneg (Num q) = (0 \<le> q)"
| "isNonneg _ = False"

definition pricedCandle :: "candle \<Rightarrow> bool" where
  "pricedCandle cd =
     (isPos (open cd) \<and> isPos (high cd) \<and> isPos (low cd) \<and> isPos (close cd)
      \<and> isNonneg (volume cd))"

text \<open>
  A strength between 0 and 100 inclusive.
\<close>

fun inRange :: "jsnum \<Rightarrow> bool" where
  "inRange (Num q) = (0 \<le> q \<and> q \<le> 100)"
| "inRange _ = False"

text \<open>
  Twenty candles whose low (2) is above their high (1), then a candle closing at 3.
\<close>

definition crossed :: "candle list" where
  "crossed = replicate 20 (flat\<lparr>high := Num 1, low := Num 2\<rparr>) @ [flat\<lparr>close := Num 3\<rparr>]"


section \<open>The candle buffer\<close>

text \<open>The strategy loop leaves the buffers alone; a tick changes only its symbol's buffer.\<close>

lemma emitIfNew_candles: "candles (final (emitIfNew symb strat so st)) = candles st"
  by (simp add: emitIfNew_def final_def broadcast_def split: option.splits)

lemma emitIfNew_Inr_candles: "emitIfNew symb strat so st = Inr st' \<Longrightarrow> candles st' = candles st"
  using emitIfNew_candles [of symb strat so st] by (simp add: final_def)

lemma emitIfNew_Inl_state: "emitIfNew symb strat so st = Inl (e, st') \<Longrightarrow> st' = st"
  by (simp add: emitIfNew_def split: option.splits if_splits)

lemma runStrategies_candles: "candles (final (runStrategies symb cs ss st)) = candles st"
proof (induction ss arbitrary: st)
  case Nil
  show ?case by (simp add: final_def)
next
  case (Cons strat rest)
  show ?case
  proof (cases "runStrategy strat symb cs")
    case (Inl e)
    then show ?thesis by (simp add: final_def)
  next
    case (Inr sigopt)
    show ?thesis
    proof (cases "emitIfNew symb strat sigopt st")
      case (Inl err)
      obtain e st' where err: "err = (e, st')" by (cases err)
      with Inl emitIfNew_Inl_state have "st' = st" by blast
      with Inl Inr err show ?thesis by (simp add: final_def)
    next
      case (Inr st')
      with \<open>runStrategy strat symb cs = Inr sigopt\<close> Cons.IH [of st'] emitIfNew_Inr_candles [OF Inr]
      show ?thesis by simp
    qed
  qed
qed

lemma processKline_candles:
  "candles (final (processKline symb (Some k) st)) =
     (case candles st symb of
        None \<Rightarrow> candles st
      | Some cs \<Rightarrow> (candles st)(symb \<mapsto> updateCandles cs (mkCandle k)))"
  by (simp add: processKline_def Let_def runStrategies_candles broadcast_def split: option.splits)
     (simp add: final_def)

lemma processKline_None: "final (processKline symb None st) = st"
  by (simp add: processKline_def final_def)

lemma updateCandles_alt:
  "updateCandles cs cd =
     (if cs \<noteq> [] \<and> time (last cs) = time cd then butlast cs @ [cd]
      else if closed cd \<or> cs = [] then
        (if 500 \<le> length cs then tl cs @ [cd] else cs @ [cd])
      else cs)"
proof (cases cs rule: rev_cases)
  case Nil
  then show ?thesis by (simp add: updateCandles_def)
next
  case (snoc ys y)
  then show ?thesis
    by (cases ys) (simp_all add: updateCandles_def Let_def nth_append)
qed

lemma updateCandles_nonempty: "updateCandles cs cd \<noteq> []"
  by (simp add: updateCandles_alt)

lemma updateCandles_length: "length cs \<le> 500 \<Longrightarrow> length (updateCandles cs cd) \<le> 500"
  by (simp add: updateCandles_alt)

lemma updateCandles_sorted:
  assumes "sorted_wrt (<) (map time cs)" and "cs \<noteq> [] \<Longrightarrow> time (last cs) \<le> time cd"
  shows "sorted_wrt (<) (map time (updateCandles cs cd))"
proof (cases cs rule: rev_cases)
  case Nil
  then show ?thesis by (simp add: updateCandles_alt)
next
  case (snoc ys y)
  with assms have srt: "sorted_wrt (<) (map time ys)"
    and below: "\<forall>z\<in>set ys. time z < time y" and le: "time y \<le> time cd"
    by (auto simp: sorted_wrt_append)
  from below le have belowcd: "\<forall>z\<in>set ys. time z < time cd" by auto
  have tlsrt: "sorted_wrt (<) (map time (tl ys))"
    using srt by (cases ys) simp_all
  have tlset: "set (tl ys) \<subseteq> set ys" by (cases ys) auto
  show ?thesis
  proof (cases "time y = time cd")
    case True
    with snoc srt belowcd show ?thesis by (simp add: updateCandles_alt sorted_wrt_append)
  next
    case False
    with le have lt: "time y < time cd" by simp
    show ?thesis
    proof (cases ys)
      case Nil
      with snoc False lt show ?thesis by (simp add: updateCandles_alt)
    next
      case (Cons a as)
      with snoc False lt srt below belowcd show ?thesis
        by (auto simp: updateCandles_alt sorted_wrt_append)
    qed
  qed
qed

lemma updateCandles_last:
  "cs \<noteq> [] \<Longrightarrow> time (last cs) \<le> time cd \<Longrightarrow> time (last (updateCandles cs cd)) \<le> time cd"
  by (cases cs) (auto simp: updateCandles_alt)

lemma updateCandles_last_Nil: "time (last (updateCandles [] cd)) \<le> time cd"
  by (simp add: updateCandles_alt)


lemma processTicks_Cons:
  "processTicks symb (k # ks) st = processTicks symb ks (final (processKline symb k st))"
  by (simp add: processTicks_def)

lemma processTicks_Nil: "processTicks symb [] st = st"
  by (simp add: processTicks_def)

lemma processTicks_sorted:
  assumes "candles st symb = Some cs" and "sorted_wrt (<) (map time cs)"
    and "sorted (map kt ks)"
    and "cs \<noteq> [] \<Longrightarrow> \<forall>k\<in>set ks. time (last cs) \<le> kt k"
  shows "\<exists>cs'. candles (processTicks symb (map Some ks) st) symb = Some cs'
           \<and> sorted_wrt (<) (map time cs')"
  using assms
proof (induction ks arbitrary: st cs)
  case Nil
  then show ?case by (simp add: processTicks_Nil)
next
  case (Cons k ks)
  let ?cs = "updateCandles cs (mkCandle k)"
  let ?st = "final (processKline symb (Some k) st)"
  have tk: "time (mkCandle k) = kt k" by (simp add: mkCandle_def)
  have c: "candles ?st symb = Some ?cs"
    using Cons.prems(1) by (simp add: processKline_candles)
  have s: "sorted_wrt (<) (map time ?cs)"
    using Cons.prems(2,4) by (intro updateCandles_sorted) (simp_all add: tk)
  have lastle: "time (last ?cs) \<le> kt k"
  proof (cases "cs = []")
    case True
    then show ?thesis using updateCandles_last_Nil [of "mkCandle k"] by (simp add: tk)
  next
    case False
    with Cons.prems(4) have "time (last cs) \<le> time (mkCandle k)" by (simp add: tk)
    from updateCandles_last [OF False this] show ?thesis by (simp add: tk)
  qed
  have nxt: "\<forall>q\<in>set ks. time (last ?cs) \<le> kt q"
    using lastle Cons.prems(3) by auto
  from Cons.IH [OF c s] Cons.prems(3) nxt show ?case
    by (simp add: processTicks_Cons)
qed

text \<open>
  Claim C1, as amended. When the ticks arrive with non-decreasing timestamps, the buffer
  that starts empty has strictly increasing, hence pairwise distinct, timestamps after
  any number of ticks. In every state, a tick whose timestamp equals that of the last
  buffered candle replaces that candle in place and leaves the length unchanged.
\<close>

theorem candle_timestamps_distinct:
  assumes "candles st symb = Some []" and "sorted (map kt ks)"
  shows "(\<exists>cs. candles (processTicks symb (map Some ks) st) symb = Some cs
            \<and> distinct (map time cs) \<and> sorted_wrt (<) (map time cs))
       \<and> (\<forall>st' cs k. candles st' symb = Some cs \<and> cs \<noteq> [] \<and> time (last cs) = kt k \<longrightarrow>
             candles (final (processKline symb (Some k) st')) symb
               = Some (butlast cs @ [mkCandle k])
             \<and> length (butlast cs @ [mkCandle k]) = length cs)"
proof -
  from processTicks_sorted [OF assms(1) _ assms(2)]
  obtain cs where cs: "candles (processTicks symb (map Some ks) st) symb = Some cs"
    and s: "sorted_wrt (<) (map time cs)" by auto
  from s have "distinct (map time cs)"
    by (simp add: strict_sorted_iff)
  with cs s have first: "\<exists>cs. candles (processTicks symb (map Some ks) st) symb = Some cs
            \<and> distinct (map time cs) \<and> sorted_wrt (<) (map time cs)" by blast
  have second: "\<forall>st' cs k. candles st' symb = Some cs \<and> cs \<noteq> [] \<and> time (last cs) = kt k \<longrightarrow>
             candles (final (processKline symb (Some k) st')) symb
               = Some (butlast cs @ [mkCandle k])
             \<and> length (butlast cs @ [mkCandle k]) = length cs"
    by (auto simp: processKline_candles updateCandles_alt mkCandle_def)
  from first second show ?thesis by blast
qed

theorem candle_timestamps_distinct_witness:
  "\<exists>cs. candles (processTicks ''btcusdt''
             (map Some [tick 1 False, tick 1 True, tick 2 True]) engine0) ''btcusdt'' = Some cs
        \<and> distinct (map time cs)"
proof -
  have h1: "candles engine0 ''btcusdt'' = Some []" by (simp add: engine0_def)
  have h2: "sorted (map kt [tick 1 False, tick 1 True, tick 2 True])" by (simp add: tick_def)
  from candle_timestamps_distinct [OF h1 h2] show ?thesis by blast
qed

text \<open>
  Claim C1 as stated fails: a closed tick for an earlier bucket that arrives after a later
  one is appended, since only the last entry is compared. Ticks at times 1, 2, 1 (all
  closed) leave the timestamps 1, 2, 1 in the buffer.
\<close>

theorem candle_timestamps_counterexample:
  "candles engine0 ''btcusdt'' = Some []
   \<and> map_option (map time) (candles (processTicks ''btcusdt''
         [Some (tick 1 True), Some (tick 2 True), Some (tick 1 True)] engine0) ''btcusdt'')
       = Some [1, 2, 1]
   \<and> \<not> distinct [1, 2, 1 :: int]"
  by (simp add: processTicks_def processKline_candles updateCandles_def mkCandle_def
        engine0_def tick_def)

subsection \<open>Bounded history\<close>

lemma processTicks_length:
  "candles st symb = Some cs \<Longrightarrow> length cs \<le> 500 \<Longrightarrow>
   \<exists>cs'. candles (processTicks symb ks st) symb = Some cs' \<and> length cs' \<le> 500"
proof (induction ks arbitrary: st cs)
  case Nil
  then show ?case by (simp add: processTicks_Nil)
next
  case (Cons k ks)
  show ?case
  proof (cases k)
    case None
    with Cons show ?thesis by (simp add: processTicks_Cons processKline_None)
  next
    case (Some q)
    from Cons.prems have "candles (final (processKline symb (Some q) st)) symb
        = Some (updateCandles cs (mkCandle q))"
      by (simp add: processKline_candles)
    from Cons.IH [OF this updateCandles_length [OF Cons.prems(2)]] Some show ?thesis
      by (simp add: processTicks_Cons)
  qed
qed

text \<open>
  Claim C3. A buffer of at most 500 candles still has at most 500 after any sequence of
  ticks. A tick that appends to a buffer of exactly 500 (a closed tick whose timestamp
  differs from the last entry's) removes the first entry and puts the new candle at the
  end; the other entries keep their order.
\<close>

theorem buffer_bounded_fifo:
  assumes "candles st symb = Some cs" and "length cs \<le> 500"
  shows "(\<exists>cs'. candles (processTicks symb ks st) symb = Some cs' \<and> length cs' \<le> 500)
       \<and> (\<forall>k. length cs = 500 \<and> time (last cs) \<noteq> kt k \<and> kx k \<longrightarrow>
             candles (final (processKline symb (Some k) st)) symb
               = Some (tl cs @ [mkCandle k]))"
proof -
  have "\<forall>k. length cs = 500 \<and> time (last cs) \<noteq> kt k \<and> kx k \<longrightarrow>
             candles (final (processKline symb (Some k) st)) symb
               = Some (tl cs @ [mkCandle k])"
    using assms(1) by (auto simp: processKline_candles updateCandles_alt mkCandle_def)
  with processTicks_length [OF assms] show ?thesis by blast
qed

theorem buffer_bounded_fifo_witness:
  "candles (final (processKline ''btcusdt'' (Some (tick 2 True)) engineFull)) ''btcusdt''
     = Some (tl fullBuffer @ [mkCandle (tick 2 True)])"
proof -
  have h1: "candles engineFull ''btcusdt'' = Some fullBuffer"
    by (simp add: engineFull_def)
  have h2: "length fullBuffer \<le> 500" by (simp add: fullBuffer_def)
  have h3: "length fullBuffer = 500 \<and> time (last fullBuffer) \<noteq> kt (tick 2 True)
              \<and> kx (tick 2 True)"
    by (simp add: fullBuffer_def tick_def mkCandle_def)
  from buffer_bounded_fifo [OF h1 h2, of "[]"] h3 show ?thesis by blast
qed

section \<open>Signal de-duplication\<close>



section \<open>Unsubscribing a symbol\<close>




section \<open>Minimum history of the evaluators\<close>

lemma length_sma:
  "length (sma vs p) = (if length vs < p then 0 else length vs - (p - 1))"
  by (simp add: sma_def)

lemma sliceFrom_neg:
  "0 < n \<Longrightarrow> n \<le> length xs \<Longrightarrow> sliceFrom (- int n) xs = drop (length xs - n) xs"
  by (auto simp: sliceFrom_def relIndex_def nat_diff_distrib' max_def)

lemma smaCrossover_None_iff: "smaCrossover cs = None \<longleftrightarrow> length cs < 31"
  by (auto simp: smaCrossover_def Let_def length_sma)

lemma rsi_Some: "15 \<le> length vs \<Longrightarrow> \<exists>r. rsi vs 14 = Some r"
  by (simp add: rsi_def Let_def split: prod.splits)

lemma rsiStrategy_Some: "15 \<le> length cs \<Longrightarrow> \<exists>sig. rsiStrategy cs = Some sig"
  using rsi_Some [of "map close cs"] by (auto simp: rsiStrategy_def)

lemma rsiStrategy_None: "length cs < 15 \<Longrightarrow> rsiStrategy cs = None"
  by (simp add: rsiStrategy_def rsi_def)

lemma breakoutStrategy_Some: "21 \<le> length cs \<Longrightarrow> \<exists>sig. breakoutStrategy cs = Some sig"
  by (simp add: breakoutStrategy_def Let_def)

lemma vwap_Inr: "cs \<noteq> [] \<Longrightarrow> \<exists>vw. vwap cs = Inr vw"
  by (simp add: vwap_def Let_def split: prod.splits)

lemma hftMomentum_Some:
  assumes "30 \<le> length cs"
  shows "\<exists>sig. hftMomentum cs = Inr (Some sig)"
proof -
  from assms have "sliceFrom (- 30) cs \<noteq> []"
    using sliceFrom_neg [of 30 cs] by auto
  from vwap_Inr [OF this] obtain vw where "vwap (sliceFrom (- 30) cs) = Inr vw" ..
  with assms show ?thesis by (simp add: hftMomentum_def Let_def)
qed

lemma linearRegression_Some: "50 \<le> length cs \<Longrightarrow> \<exists>sig. linearRegression cs = Some sig"
  by (simp add: linearRegression_def Let_def)

text \<open>
  Claim C4. With fewer candles than its minimum bar count (30, 15, 21, 30, 50) each
  strategy returns no signal.
\<close>

theorem insufficient_history_none:
  "(length cs < 30 \<longrightarrow> runStrategy ''sma_crossover'' symb cs = Inr None)
   \<and> (length cs < 15 \<longrightarrow> runStrategy ''rsi'' symb cs = Inr None)
   \<and> (length cs < 21 \<longrightarrow> runStrategy ''breakout'' symb cs = Inr None)
   \<and> (length cs < 30 \<longrightarrow> runStrategy ''hft_momentum'' symb cs = Inr None)
   \<and> (length cs < 50 \<longrightarrow> runStrategy ''linear_regression'' symb cs = Inr None)"
proof -
  have "length cs < 30 \<longrightarrow> smaCrossover cs = None"
    using smaCrossover_None_iff [of cs] by simp
  then show ?thesis
    by (simp add: runStrategy_def rsiStrategy_None breakoutStrategy_def hftMomentum_def
          linearRegression_def)
qed

theorem insufficient_history_none_witness:
  "runStrategy ''sma_crossover'' ''btcusdt'' (replicate 29 flat) = Inr None
   \<and> runStrategy ''rsi'' ''btcusdt'' (replicate 14 flat) = Inr None
   \<and> runStrategy ''breakout'' ''btcusdt'' (replicate 20 flat) = Inr None
   \<and> runStrategy ''hft_momentum'' ''btcusdt'' (replicate 29 flat) = Inr None
   \<and> runStrategy ''linear_regression'' ''btcusdt'' (replicate 49 flat) = Inr None"
  using insufficient_history_none [of "replicate 29 flat" "''btcusdt''"]
    insufficient_history_none [of "replicate 14 flat" "''btcusdt''"]
    insufficient_history_none [of "replicate 20 flat" "''btcusdt''"]
    insufficient_history_none [of "replicate 49 flat" "''btcusdt''"]
  by simp

text \<open>
  Claim C5, as amended. Trend-cross returns a signal from 31 candles on, the other
  evaluators from their stated minimum (15, 21, 30, 50) on.
\<close>

theorem sufficient_history_signal:
  "(31 \<le> length cs \<longrightarrow> (\<exists>sig. runStrategy ''sma_crossover'' symb cs = Inr (Some sig)))
   \<and> (15 \<le> length cs \<longrightarrow> (\<exists>sig. runStrategy ''rsi'' symb cs = Inr (Some sig)))
   \<and> (21 \<le> length cs \<longrightarrow> (\<exists>sig. runStrategy ''breakout'' symb cs = Inr (Some sig)))
   \<and> (30 \<le> length cs \<longrightarrow> (\<exists>sig. runStrategy ''hft_momentum'' symb cs = Inr (Some sig)))
   \<and> (50 \<le> length cs \<longrightarrow> (\<exists>sig. runStrategy ''linear_regression'' symb cs = Inr (Some sig)))"
proof -
  have "31 \<le> length cs \<longrightarrow> (\<exists>sig. smaCrossover cs = Some sig)"
    using smaCrossover_None_iff [of cs] by (cases "smaCrossover cs") auto
  then show ?thesis
    using rsiStrategy_Some [of cs] breakoutStrategy_Some [of cs] hftMomentum_Some [of cs]
      linearRegression_Some [of cs]
    by (simp add: runStrategy_def)
qed

theorem sufficient_history_signal_witness:
  "(\<exists>sig. runStrategy ''sma_crossover'' ''btcusdt'' (replicate 50 flat) = Inr (Some sig))
   \<and> (\<exists>sig. runStrategy ''rsi'' ''btcusdt'' (replicate 50 flat) = Inr (Some sig))
   \<and> (\<exists>sig. runStrategy ''breakout'' ''btcusdt'' (replicate 50 flat) = Inr (Some sig))
   \<and> (\<exists>sig. runStrategy ''hft_momentum'' ''btcusdt'' (replicate 50 flat) = Inr (Some sig))
   \<and> (\<exists>sig. runStrategy ''linear_regression'' ''btcusdt'' (replicate 50 flat) = Inr (Some sig))"
  using sufficient_history_signal [of "replicate 50 flat" "''btcusdt''"] by simp

text \<open>
  Claim C5 as stated fails for trend-cross: with exactly 30 candles the 30-bar average has
  a single point, and the evaluator needs two.
\<close>

theorem sufficient_history_counterexample:
  "30 \<le> length (replicate 30 flat)
   \<and> runStrategy ''sma_crossover'' ''btcusdt'' (replicate 30 flat) = Inr None"
  by (simp add: runStrategy_def smaCrossover_None_iff)

section \<open>The trend-cross rule\<close>

lemma slice_nonneg:
  "a \<le> b \<Longrightarrow> b \<le> length xs \<Longrightarrow> slice (int a) (int b) xs = take (b - a) (drop a xs)"
  by (simp add: slice_def relIndex_def Let_def)

lemma sma_nth:
  assumes "1 \<le> p" and "p \<le> length vs" and "k < length vs - (p - 1)"
  shows "sma vs p ! k = smaAt vs p (k + p - 1)"
proof -
  let ?i = "p - 1 + k"
  have idx: "[p - 1 ..< length vs] ! k = ?i" using assms by simp
  have kp: "k + p \<le> length vs" using assms by arith
  have e1: "int ?i - int p + 1 = int k" using assms by simp
  have e2: "int ?i + 1 = int (k + p)" using assms by simp
  have e3: "k + p - 1 + 1 - p = k" using assms by simp
  have e4: "k + p - k = p" by simp
  have sl: "slice (int k) (int (k + p)) vs = take p (drop k vs)"
    using slice_nonneg [of k "k + p" vs] kp by (simp only: e4 le_add1)
  have "sma vs p ! k = sumjs (slice (int ?i - int p + 1) (int ?i + 1) vs) / Num (of_nat p)"
    using assms idx by (simp add: sma_def)
  also have "\<dots> = sumjs (take p (drop k vs)) / Num (of_nat p)"
    by (simp only: e1 e2 sl)
  also have "\<dots> = smaAt vs p (k + p - 1)"
    by (simp only: smaAt_def e3)
  finally show ?thesis .
qed

lemma sma_last:
  assumes "1 \<le> p" and "p \<le> length vs"
  shows "nthjs (sma vs p) (length (sma vs p) - 1) = smaAt vs p (length vs - 1)"
proof -
  let ?k = "length vs - (p - 1) - 1"
  have len: "length (sma vs p) = length vs - (p - 1)" using assms by (simp add: length_sma)
  have k: "?k < length vs - (p - 1)" using assms by arith
  have e: "?k + p - 1 = length vs - 1" using assms by arith
  have "nthjs (sma vs p) (length (sma vs p) - 1) = sma vs p ! ?k"
    using k by (simp add: nthjs_def len)
  also have "\<dots> = smaAt vs p (?k + p - 1)" by (rule sma_nth [OF assms k])
  also have "\<dots> = smaAt vs p (length vs - 1)" by (simp only: e)
  finally show ?thesis .
qed

lemma sma_prev:
  assumes "1 \<le> p" and "p < length vs"
  shows "nthjs (sma vs p) (length (sma vs p) - 2) = smaAt vs p (length vs - 2)"
proof -
  let ?k = "length vs - (p - 1) - 2"
  have le: "p \<le> length vs" using assms by simp
  have len: "length (sma vs p) = length vs - (p - 1)" using assms by (simp add: length_sma)
  have k: "?k < length vs - (p - 1)" using assms by arith
  have e: "?k + p - 1 = length vs - 2" using assms by arith
  have "nthjs (sma vs p) (length (sma vs p) - 2) = sma vs p ! ?k"
    using k by (simp add: nthjs_def len)
  also have "\<dots> = smaAt vs p (?k + p - 1)" by (rule sma_nth [OF assms(1) le k])
  also have "\<dots> = smaAt vs p (length vs - 2)" by (simp only: e)
  finally show ?thesis .
qed

lemma smaCrossover_vars:
  assumes "31 \<le> length cs"
  shows "smaCrossover cs =
     (let closes = map close cs; n = length cs;
          curr10 = smaAt closes 10 (n - 1); prev10 = smaAt closes 10 (n - 2);
          curr30 = smaAt closes 30 (n - 1); prev30 = smaAt closes 30 (n - 2)
      in if prev10 \<le> prev30 \<and> curr10 > curr30 then
                Some \<lparr>action = BUY,
                      reason = ''SMA(10) crossed above SMA(30) - bullish crossover'',
                      figures = [curr10, curr30],
                      strength = mathMin2 ((curr10 - curr30) / curr30 * Num 1000) (Num 100)\<rparr>
              else if prev10 \<ge> prev30 \<and> curr10 < curr30 then
                Some \<lparr>action = SELL,
                      reason = ''SMA(10) crossed below SMA(30) - bearish crossover'',
                      figures = [curr10, curr30],
                      strength = mathMin2 ((curr30 - curr10) / curr10 * Num 1000) (Num 100)\<rparr>
              else if curr10 > curr30 * Num 1.002 then
                Some \<lparr>action = BUY, reason = ''SMA(10) above SMA(30) - bullish trend'',
                      figures = [curr10, curr30], strength = Num 40\<rparr>
              else if curr10 < curr30 * Num 0.998 then
                Some \<lparr>action = SELL, reason = ''SMA(10) below SMA(30) - bearish trend'',
                      figures = [curr10, curr30], strength = Num 40\<rparr>
              else
                Some \<lparr>action = HOLD, reason = ''SMA(10) ~ SMA(30) - no clear trend'',
                      figures = [curr10, curr30], strength = Num 10\<rparr>)"
proof -
  let ?v = "map close cs"
  have a: "nthjs (sma ?v 10) (length (sma ?v 10) - 1) = smaAt ?v 10 (length cs - 1)"
    using sma_last [of 10 ?v] assms by simp
  have b: "nthjs (sma ?v 10) (length (sma ?v 10) - 2) = smaAt ?v 10 (length cs - 2)"
    using sma_prev [of 10 ?v] assms by simp
  have c: "nthjs (sma ?v 30) (length (sma ?v 30) - 1) = smaAt ?v 30 (length cs - 1)"
    using sma_last [of 30 ?v] assms by simp
  have d: "nthjs (sma ?v 30) (length (sma ?v 30) - 2) = smaAt ?v 30 (length cs - 2)"
    using sma_prev [of 30 ?v] assms by simp
  have l10: "length (sma ?v 10) = length cs - 9" using assms by (simp add: length_sma)
  have l30: "length (sma ?v 30) = length cs - 29" using assms by (simp add: length_sma)
  have l: "\<not> (length (sma ?v 10) < 2 \<or> length (sma ?v 30) < 2)"
    unfolding l10 l30 using assms by arith
  show ?thesis
    unfolding smaCrossover_def Let_def a b c d using l by simp
qed



section \<open>The breakout boundary\<close>

text \<open>Order facts about numbers, \<open>Math.max\<close> and \<open>Math.min\<close>.\<close>

lemma jlt_irrefl: "\<not> jlt a a"
  by (cases a) auto

lemma jlt_asym: "jlt a b \<Longrightarrow> \<not> jlt b a"
  by (cases a; cases b) auto

lemma jle_trans: "(a :: jsnum) \<le> b \<Longrightarrow> b \<le> c \<Longrightarrow> a \<le> c"
  by (cases a; cases b; cases c) auto

lemma jle_not_jlt: "(a :: jsnum) \<le> b \<Longrightarrow> \<not> jlt b a"
  by (cases a; cases b) auto

lemma jle_not_NaN: "(a :: jsnum) \<le> b \<Longrightarrow> a \<noteq> NaN \<and> b \<noteq> NaN"
  by (cases a; cases b) auto

lemma jle_refl: "a \<noteq> NaN \<Longrightarrow> (a :: jsnum) \<le> a"
  by (cases a) auto

lemma mathMax2_NaN: "mathMax2 a b = NaN \<longleftrightarrow> a = NaN \<or> b = NaN"
  by (cases a; cases b) auto

lemma mathMin2_NaN: "mathMin2 a b = NaN \<longleftrightarrow> a = NaN \<or> b = NaN"
  by (cases a; cases b) auto

lemma mathMax2_ge: "a \<noteq> NaN \<Longrightarrow> b \<noteq> NaN \<Longrightarrow> a \<le> mathMax2 a b \<and> b \<le> mathMax2 a b"
  by (cases a; cases b) auto

lemma mathMin2_le: "a \<noteq> NaN \<Longrightarrow> b \<noteq> NaN \<Longrightarrow> mathMin2 a b \<le> a \<and> mathMin2 a b \<le> b"
  by (cases a; cases b) auto

lemma mathMax2_mem: "mathMax2 a b = a \<or> mathMax2 a b = b"
  by (cases a; cases b) auto

lemma mathMin2_mem: "mathMin2 a b = a \<or> mathMin2 a b = b"
  by (cases a; cases b) auto

lemma foldl_mathMax2_ge:
  "a \<noteq> NaN \<Longrightarrow> NaN \<notin> set xs \<Longrightarrow>
   foldl mathMax2 a xs \<noteq> NaN \<and> a \<le> foldl mathMax2 a xs
     \<and> (\<forall>y\<in>set xs. y \<le> foldl mathMax2 a xs)"
proof (induction xs arbitrary: a)
  case Nil
  then show ?case by (simp add: jle_refl del: less_eq_jsnum_def)
next
  case (Cons y ys)
  let ?b = "mathMax2 a y"
  from Cons.prems have y: "y \<noteq> NaN" and ys: "NaN \<notin> set ys" by auto
  from Cons.prems(1) y have b: "?b \<noteq> NaN" by (simp add: mathMax2_NaN)
  from mathMax2_ge [OF Cons.prems(1) y] have ab: "a \<le> ?b" and yb: "y \<le> ?b" by blast+
  from Cons.IH [OF b ys] have r: "foldl mathMax2 ?b ys \<noteq> NaN"
    and br: "?b \<le> foldl mathMax2 ?b ys"
    and rest: "\<forall>z\<in>set ys. z \<le> foldl mathMax2 ?b ys" by blast+
  from jle_trans [OF ab br] jle_trans [OF yb br] r rest show ?case
    by (simp del: less_eq_jsnum_def)
qed

lemma foldl_mathMin2_le:
  "a \<noteq> NaN \<Longrightarrow> NaN \<notin> set xs \<Longrightarrow>
   foldl mathMin2 a xs \<noteq> NaN \<and> foldl mathMin2 a xs \<le> a
     \<and> (\<forall>y\<in>set xs. foldl mathMin2 a xs \<le> y)"
proof (induction xs arbitrary: a)
  case Nil
  then show ?case by (simp add: jle_refl del: less_eq_jsnum_def)
next
  case (Cons y ys)
  let ?b = "mathMin2 a y"
  from Cons.prems have y: "y \<noteq> NaN" and ys: "NaN \<notin> set ys" by auto
  from Cons.prems(1) y have b: "?b \<noteq> NaN" by (simp add: mathMin2_NaN)
  from mathMin2_le [OF Cons.prems(1) y] have ab: "?b \<le> a" and yb: "?b \<le> y" by blast+
  from Cons.IH [OF b ys] have r: "foldl mathMin2 ?b ys \<noteq> NaN"
    and br: "foldl mathMin2 ?b ys \<le> ?b"
    and rest: "\<forall>z\<in>set ys. foldl mathMin2 ?b ys \<le> z" by blast+
  from jle_trans [OF br ab] jle_trans [OF br yb] r rest show ?case
    by (simp del: less_eq_jsnum_def)
qed

lemma mathMax_ge: "NaN \<notin> set xs \<Longrightarrow> y \<in> set xs \<Longrightarrow> y \<le> mathMax xs"
  using foldl_mathMax2_ge [of NInf xs] by (simp add: mathMax_def del: less_eq_jsnum_def)

lemma mathMin_le: "NaN \<notin> set xs \<Longrightarrow> y \<in> set xs \<Longrightarrow> mathMin xs \<le> y"
  using foldl_mathMin2_le [of PInf xs] by (simp add: mathMin_def del: less_eq_jsnum_def)

text \<open>Where no low exceeds its high, the lowest low is at most the highest high.\<close>

lemma low20_le_high20:
  assumes "ps \<noteq> []" and "\<forall>cd\<in>set ps. low cd \<le> high cd"
  shows "mathMin (map low ps) \<le> mathMax (map high ps)"
proof -
  from assms(1) obtain c0 where c0: "c0 \<in> set ps" by (cases ps) auto
  from assms(2) have nl: "NaN \<notin> set (map low ps)" and nh: "NaN \<notin> set (map high ps)"
    using jle_not_NaN by (auto simp del: less_eq_jsnum_def) metis+
  from c0 have "mathMin (map low ps) \<le> low c0" by (intro mathMin_le [OF nl]) simp
  moreover from c0 assms(2) have "low c0 \<le> high c0" by blast
  moreover from c0 have "high c0 \<le> mathMax (map high ps)" by (intro mathMax_ge [OF nh]) simp
  ultimately show ?thesis by (blast intro: jle_trans)
qed

lemma slice_prior:
  assumes "21 \<le> length cs"
  shows "slice (- 21) (- 1) cs = take 20 (drop (length cs - 21) cs)"
proof -
  have a: "relIndex (- 21) (length cs) = length cs - 21"
    using assms by (simp add: relIndex_def max_def nat_diff_distrib')
  have b: "relIndex (- 1) (length cs) = length cs - 1"
    using assms by (simp add: relIndex_def max_def nat_diff_distrib')
  have "length cs - 1 - (length cs - 21) = 20" using assms by arith
  with a b show ?thesis by (simp add: slice_def Let_def)
qed

lemma breakoutStrategy_vars:
  assumes "21 \<le> length cs"
  shows "breakoutStrategy cs =
     (let prior = take 20 (drop (length cs - 21) cs);
          current = last cs;
          high20 = mathMax (map high prior);
          low20 = mathMin (map low prior);
          rng = high20 - low20
      in if close current > high20 then
             Some \<lparr>action = BUY,
                   reason = ''Price broke above 20-period high - breakout buy'',
                   figures = [high20],
                   strength = mathMin2 ((close current - high20) / rng * Num 200) (Num 100)\<rparr>
           else if close current < low20 then
             Some \<lparr>action = SELL,
                   reason = ''Price broke below 20-period low - breakdown sell'',
                   figures = [low20],
                   strength = mathMin2 ((low20 - close current) / rng * Num 200) (Num 100)\<rparr>
           else
             Some \<lparr>action = HOLD, reason = ''Price within range'',
                   figures = [low20, high20], strength = Num 10\<rparr>)"
proof -
  from assms have ne: "cs \<noteq> []" by auto
  then have l: "cs ! (length cs - 1) = last cs" by (simp add: last_conv_nth)
  from assms have g: "\<not> length cs < 21" by simp
  show ?thesis
    unfolding breakoutStrategy_def Let_def slice_prior [OF assms] l using g by simp
qed

text \<open>
  Claim C7, as amended. With at least 21 candles, where no candle of the preceding 20
  has its low above its high, a latest close equal to the highest of the preceding 20
  highs gives HOLD. In every case the breakout evaluator returns BUY exactly when the
  close is strictly above that high, and SELL only when the close is strictly below the
  lowest of the preceding 20 lows.
\<close>

theorem breakout_boundary:
  assumes "21 \<le> length cs"
  shows "(let prior = take 20 (drop (length cs - 21) cs); cl = close (last cs)
          in ((\<forall>cd\<in>set prior. low cd \<le> high cd) \<and> jeq cl (mathMax (map high prior))
               \<longrightarrow> (\<exists>sig. breakoutStrategy cs = Some sig \<and> action sig = HOLD))
           \<and> (\<forall>sig. breakoutStrategy cs = Some sig \<longrightarrow>
                 (action sig = BUY \<longleftrightarrow> cl > mathMax (map high prior))
                 \<and> (action sig = SELL \<longrightarrow> cl < mathMin (map low prior))))"
proof -
  let ?prior = "take 20 (drop (length cs - 21) cs)"
  let ?cl = "close (last cs)"
  let ?h = "mathMax (map high ?prior)"
  let ?l = "mathMin (map low ?prior)"
  from assms have ne: "?prior \<noteq> []" by auto
  have hold: "\<exists>sig. breakoutStrategy cs = Some sig \<and> action sig = HOLD"
    if wf: "\<forall>cd\<in>set ?prior. low cd \<le> high cd" and eq: "jeq ?cl ?h"
  proof -
    from eq have e: "?cl = ?h" by (cases ?cl; cases ?h) auto
    from low20_le_high20 [OF ne wf] have "\<not> jlt ?h ?l" by (rule jle_not_jlt)
    with e have "\<not> ?cl > ?h" and "\<not> ?cl < ?l" by (simp_all add: jlt_irrefl)
    then show ?thesis unfolding breakoutStrategy_vars [OF assms] Let_def by simp
  qed
  have acts: "\<forall>sig. breakoutStrategy cs = Some sig \<longrightarrow>
                 (action sig = BUY \<longleftrightarrow> ?cl > ?h) \<and> (action sig = SELL \<longrightarrow> ?cl < ?l)"
    unfolding breakoutStrategy_vars [OF assms] Let_def by auto
  from hold acts show ?thesis unfolding Let_def by blast
qed

theorem breakout_boundary_witness:
  "\<exists>sig. breakoutStrategy (replicate 21 flat) = Some sig \<and> action sig = HOLD"
proof -
  have len: "21 \<le> length (replicate 21 flat)" by simp
  have h: "(\<forall>cd\<in>set (take 20 (drop (length (replicate 21 flat) - 21) (replicate 21 flat))).
              low cd \<le> high cd)
           \<and> jeq (close (last (replicate 21 flat)))
               (mathMax (map high (take 20 (drop (length (replicate 21 flat) - 21)
                  (replicate 21 flat)))))"
    by code_simp
  from breakout_boundary [OF len] h show ?thesis unfolding Let_def by blast
qed

text \<open>
  Claim C7 as stated fails on candles whose lows lie above their highs: the close equals
  the prior high, is below the prior low, and the evaluator returns SELL.
\<close>

theorem breakout_boundary_counterexample:
  "21 \<le> length inverted
   \<and> jeq (close (last inverted))
        (mathMax (map high (take 20 (drop (length inverted - 21) inverted))))
   \<and> map_option action (breakoutStrategy inverted) = Some SELL"
  by code_simp

section \<open>Range of the strength\<close>

lemma hft_strength:
  "d < Num (- 0.15) \<or> d > Num 0.15 \<Longrightarrow> vr > Num 1.3 \<Longrightarrow>
   inRange (mathMin2 (\<bar>d\<bar> * Num 200 + vr * Num 10) (Num 100))"
  by (cases d; cases vr) auto

lemma r2_strength: "r > Num 0.6 \<Longrightarrow> inRange (mathMin2 (r * Num 100) (Num 100))"
  by (cases r) auto

lemma reversal_strength:
  "s > Num 0.1 \<or> s < Num (- 0.1) \<Longrightarrow> inRange (mathMin2 (\<bar>s\<bar> * Num 300) (Num 80))"
  by (cases s) auto

lemma rsiStrategy_inRange: "rsiStrategy cs = Some sig \<Longrightarrow> inRange (strength sig)"
  by (auto simp: rsiStrategy_def split: option.splits if_splits)

lemma hftMomentum_inRange: "hftMomentum cs = Inr (Some sig) \<Longrightarrow> inRange (strength sig)"
  unfolding hftMomentum_def Let_def
  using hft_strength
  by (auto split: if_splits sum.splits)

lemma linearRegression_inRange: "linearRegression cs = Some sig \<Longrightarrow> inRange (strength sig)"
  unfolding linearRegression_def Let_def
  using r2_strength reversal_strength
  by (auto split: if_splits)

lemma foldl_jadd_pos:
  "\<forall>y\<in>set xs. isPos y \<Longrightarrow>
   \<exists>r. foldl jadd (Num q) xs = Num r \<and> (if xs = [] then r = q else q < r)"
proof (induction xs arbitrary: q)
  case Nil
  show ?case by simp
next
  case (Cons y ys)
  from Cons.prems obtain a where y: "y = Num a" and a: "0 < a" by (cases y) auto
  from Cons.prems have "\<forall>z\<in>set ys. isPos z" by simp
  from Cons.IH [OF this, of "q + a"] obtain r
    where r: "foldl jadd (Num (q + a)) ys = Num r" and le: "q + a \<le> r"
    by (cases "ys = []") auto
  from r le a y show ?case by simp
qed

lemma plus_jsnum_eq: "((+) :: jsnum \<Rightarrow> jsnum \<Rightarrow> jsnum) = jadd"
  by (intro ext) simp

lemma sumjs_pos: "xs \<noteq> [] \<Longrightarrow> \<forall>y\<in>set xs. isPos y \<Longrightarrow> isPos (sumjs xs)"
  using foldl_jadd_pos [of xs 0] by (auto simp: sumjs_def plus_jsnum_eq)

lemma smaAt_pos:
  assumes "1 \<le> p" and "p \<le> i + 1" and "i < length vs" and "\<forall>y\<in>set vs. isPos y"
  shows "isPos (smaAt vs p i)"
proof -
  let ?w = "take p (drop (i + 1 - p) vs)"
  from assms have "?w \<noteq> []" by auto
  moreover from assms(4) have "\<forall>y\<in>set ?w. isPos y"
    by (meson in_set_dropD in_set_takeD)
  ultimately have "isPos (sumjs ?w)" by (rule sumjs_pos)
  then obtain r where r: "sumjs ?w = Num r" and pos: "0 < r" by (cases "sumjs ?w") auto
  from assms(1) have "0 < (of_nat p :: rat)" by simp
  with r pos show ?thesis by (simp add: smaAt_def)
qed

lemma cross_strength:
  "isPos a \<Longrightarrow> isPos b \<Longrightarrow> a > b \<Longrightarrow>
   inRange (mathMin2 ((a - b) / b * Num 1000) (Num 100))"
  by (cases a; cases b) auto

lemma smaCrossover_inRange:
  assumes "\<forall>cd\<in>set cs. pricedCandle cd" and "smaCrossover cs = Some sig"
  shows "inRange (strength sig)"
proof -
  from assms(2) have len: "31 \<le> length cs"
    using smaCrossover_None_iff [of cs] by (cases "length cs < 31") auto
  let ?v = "map close cs"
  from assms(1) have pos: "\<forall>y\<in>set ?v. isPos y" by (auto simp: pricedCandle_def)
  have c10: "isPos (smaAt ?v 10 (length cs - 1))"
    using len by (intro smaAt_pos [OF _ _ _ pos]) simp_all
  have c30: "isPos (smaAt ?v 30 (length cs - 1))"
    using len by (intro smaAt_pos [OF _ _ _ pos]) simp_all
  from assms(2) show ?thesis
    unfolding smaCrossover_vars [OF len] Let_def
    using cross_strength [OF c10 c30] cross_strength [OF c30 c10]
    by (auto split: if_splits)
qed

lemma foldl_mathMax2_mem: "foldl mathMax2 a xs \<in> set (a # xs)"
proof (induction xs arbitrary: a)
  case Nil
  show ?case by simp
next
  case (Cons y ys)
  from Cons.IH [of "mathMax2 a y"] mathMax2_mem [of a y] show ?case by auto
qed

lemma foldl_mathMin2_mem: "foldl mathMin2 a xs \<in> set (a # xs)"
proof (induction xs arbitrary: a)
  case Nil
  show ?case by simp
next
  case (Cons y ys)
  from Cons.IH [of "mathMin2 a y"] mathMin2_mem [of a y] show ?case by auto
qed

lemma isPos_not_NaN: "\<forall>y\<in>set xs. isPos y \<Longrightarrow> NaN \<notin> set xs"
  by auto

lemma mathMax_pos:
  assumes "xs \<noteq> []" and "\<forall>y\<in>set xs. isPos y"
  shows "isPos (mathMax xs)"
proof -
  from assms(1) obtain y where y: "y \<in> set xs" by (cases xs) auto
  from mathMax_ge [OF isPos_not_NaN [OF assms(2)] y] have ge: "y \<le> mathMax xs" .
  from y assms(2) have "isPos y" by blast
  with ge have "mathMax xs \<noteq> NInf" by (cases y) auto
  with foldl_mathMax2_mem [of NInf xs] have "mathMax xs \<in> set xs" by (simp add: mathMax_def)
  with assms(2) show ?thesis by blast
qed

lemma mathMin_pos:
  assumes "xs \<noteq> []" and "\<forall>y\<in>set xs. isPos y"
  shows "isPos (mathMin xs)"
proof -
  from assms(1) obtain y where y: "y \<in> set xs" by (cases xs) auto
  from mathMin_le [OF isPos_not_NaN [OF assms(2)] y] have le: "mathMin xs \<le> y" .
  from y assms(2) have "isPos y" by blast
  with le have "mathMin xs \<noteq> PInf" by (cases y) auto
  with foldl_mathMin2_mem [of PInf xs] have "mathMin xs \<in> set xs" by (simp add: mathMin_def)
  with assms(2) show ?thesis by blast
qed

lemma break_strength_up:
  "isPos cl \<Longrightarrow> isPos hi \<Longrightarrow> isPos lo \<Longrightarrow> lo \<le> hi \<Longrightarrow> cl > hi \<Longrightarrow>
   inRange (mathMin2 ((cl - hi) / (hi - lo) * Num 200) (Num 100))"
  by (cases cl; cases hi; cases lo) auto

lemma break_strength_down:
  "isPos cl \<Longrightarrow> isPos hi \<Longrightarrow> isPos lo \<Longrightarrow> lo \<le> hi \<Longrightarrow> cl < lo \<Longrightarrow>
   inRange (mathMin2 ((lo - cl) / (hi - lo) * Num 200) (Num 100))"
  by (cases cl; cases hi; cases lo) auto

lemma breakoutStrategy_inRange:
  assumes "\<forall>cd\<in>set cs. pricedCandle cd \<and> low cd \<le> high cd"
    and "breakoutStrategy cs = Some sig"
  shows "inRange (strength sig)"
proof -
  from assms(2) have len: "21 \<le> length cs"
    by (cases "length cs < 21") (auto simp: breakoutStrategy_def)
  let ?prior = "take 20 (drop (length cs - 21) cs)"
  from len have ne: "?prior \<noteq> []" by auto
  have sub: "set ?prior \<subseteq> set cs" by (meson in_set_dropD in_set_takeD subsetI)
  from sub assms(1) have wf: "\<forall>cd\<in>set ?prior. low cd \<le> high cd" by blast
  from sub assms(1) have hs: "\<forall>y\<in>set (map high ?prior). isPos y"
    and ls: "\<forall>y\<in>set (map low ?prior). isPos y" by (auto simp: pricedCandle_def)
  from ne have hi: "isPos (mathMax (map high ?prior))" by (intro mathMax_pos [OF _ hs]) simp
  from ne have lo: "isPos (mathMin (map low ?prior))" by (intro mathMin_pos [OF _ ls]) simp
  from len have "cs \<noteq> []" by auto
  then have "last cs \<in> set cs" by simp
  with assms(1) have cl: "isPos (close (last cs))" by (auto simp: pricedCandle_def)
  note le = low20_le_high20 [OF ne wf]
  from assms(2) show ?thesis
    unfolding breakoutStrategy_vars [OF len] Let_def
    using break_strength_up [OF cl hi lo le] break_strength_down [OF cl hi lo le]
    by (auto split: if_splits)
qed

text \<open>
  Claim C8, as amended. On a history of candles with strictly positive finite prices,
  non-negative finite volumes and no low above its high, every signal that a strategy
  evaluator returns has a strength between 0 and 100 inclusive.
\<close>

theorem strength_in_range:
  assumes "\<forall>cd\<in>set cs. pricedCandle cd \<and> low cd \<le> high cd"
    and "runStrategy name symb cs = Inr (Some sig)"
  shows "inRange (strength sig)"
proof -
  from assms(1) have pr: "\<forall>cd\<in>set cs. pricedCandle cd" by blast
  from assms(2) consider
      "smaCrossover cs = Some sig" | "rsiStrategy cs = Some sig"
    | "breakoutStrategy cs = Some sig" | "hftMomentum cs = Inr (Some sig)"
    | "linearRegression cs = Some sig"
    by (auto simp: runStrategy_def split: if_splits)
  then show ?thesis
  proof cases
    case 1
    with pr show ?thesis by (rule smaCrossover_inRange)
  next
    case 2
    then show ?thesis by (rule rsiStrategy_inRange)
  next
    case 3
    with assms(1) show ?thesis by (rule breakoutStrategy_inRange)
  next
    case 4
    then show ?thesis by (rule hftMomentum_inRange)
  next
    case 5
    then show ?thesis by (rule linearRegression_inRange)
  qed
qed

theorem strength_in_range_witness:
  "\<exists>sig. runStrategy ''breakout'' ''btcusdt'' (replicate 20 flat @ [flat\<lparr>close := Num 3\<rparr>])
            = Inr (Some sig) \<and> inRange (strength sig)"
proof -
  let ?cs = "replicate 20 flat @ [flat\<lparr>close := Num 3\<rparr>]"
  have wf: "\<forall>cd\<in>set ?cs. pricedCandle cd \<and> low cd \<le> high cd"
    by (simp add: pricedCandle_def flat_def)
  have "\<exists>sig. runStrategy ''breakout'' ''btcusdt'' ?cs = Inr (Some sig)"
    using breakoutStrategy_Some [of ?cs] by (simp add: runStrategy_def)
  then obtain sig where s: "runStrategy ''breakout'' ''btcusdt'' ?cs = Inr (Some sig)" ..
  from strength_in_range [OF wf s] s show ?thesis by blast
qed

text \<open>
  Claim C8 as stated fails on positive prices whose lows lie above their highs: the
  20-bar range is negative, and the breakout evaluator returns BUY with strength -400.
\<close>

theorem strength_in_range_counterexample:
  "list_all pricedCandle crossed \<and> 21 \<le> length crossed
   \<and> runStrategy ''breakout'' ''btcusdt'' crossed
       = Inr (Some \<lparr>action = BUY,
                    reason = ''Price broke above 20-period high - breakout buy'',
                    figures = [Num 1], strength = Num (- 400)\<rparr>)
   \<and> \<not> inRange (Num (- 400))"
  by code_simp

section \<open>Microstructure momentum under zero volume\<close>

















end
